theory Spec2Isabelle
  imports Complex_Main "HOL-Library.AList" "HOL-Library.Log_Nat"
begin

section \<open>Strings and the regular expressions of the renderer\<close>

text \<open>
  A JavaScript string is modelled as a \<^typ>\<open>string\<close>, a list of characters, each character
  standing for one code unit of the Latin-1 range (U+0000 to U+00FF). The character classes
  below are the classes of the regular expressions in \<^verbatim>\<open>src/App.js\<close>, cut down to
  that range.
\<close>

definition isSentenceDelimiter :: "char \<Rightarrow> bool" where
  \<comment> \<open>the class \<^verbatim>\<open>[.!?]\<close>\<close>
  "isSentenceDelimiter c \<longleftrightarrow> c = CHR ''.'' \<or> c = CHR ''!'' \<or> c = CHR ''?''"

definition isWhiteSpace :: "char \<Rightarrow> bool" where
  \<comment> \<open>the class \<^verbatim>\<open>\s\<close>, which is also what \<^verbatim>\<open>trim\<close> removes: TAB, LF, VT, FF, CR,
      space and the no-break space\<close>
  "isWhiteSpace c \<longleftrightarrow>
     c = CHR 0x09 \<or> c = CHR 0x0A \<or> c = CHR 0x0B \<or> c = CHR 0x0C \<or> c = CHR 0x0D \<or>
     c = CHR 0x20 \<or> c = CHR 0xA0"

definition isStrippedPunctuation :: "char \<Rightarrow> bool" where
  \<comment> \<open>the class \<^verbatim>\<open>[.,!?;:"()]\<close>; \<open>CHR 0x22\<close> is the double quote\<close>
  "isStrippedPunctuation c \<longleftrightarrow>
     c = CHR ''.'' \<or> c = CHR '','' \<or> c = CHR ''!'' \<or> c = CHR ''?'' \<or> c = CHR '';'' \<or>
     c = CHR '':'' \<or> c = CHR 0x22 \<or> c = CHR ''('' \<or> c = CHR '')''"

definition toLowerChar :: "char \<Rightarrow> char" where
  \<comment> \<open>the lower-case mapping of the Latin-1 range: A to Z, and U+00C0 to U+00DE
      without the multiplication sign U+00D7, move up by 32\<close>
  "toLowerChar c =
     (let n = (of_char c :: nat)
      in if (65 \<le> n \<and> n \<le> 90) \<or> (192 \<le> n \<and> n \<le> 222 \<and> n \<noteq> 215)
         then char_of (n + 32) else c)"

definition toLowerCase :: "string \<Rightarrow> string" where
  "toLowerCase s = map toLowerChar s"

definition trim :: "string \<Rightarrow> string" where
  "trim s = rev (dropWhile isWhiteSpace (rev (dropWhile isWhiteSpace s)))"

definition stripPunctuation :: "string \<Rightarrow> string" where
  \<comment> \<open>\<^verbatim>\<open>s.replace(/[.,!?;:"()]/g, '')\<close>\<close>
  "stripPunctuation s = filter (\<lambda>c. \<not> isStrippedPunctuation c) s"

text \<open>
  \<^verbatim>\<open>s.split(/(C+)/)\<close> for a character class \<open>C\<close>: the text before the first run of
  \<open>C\<close>, the run itself (the capture group), and the split of what follows the run. A text
  with no run of \<open>C\<close>, the empty text included, is returned as its only piece.
\<close>

function split_runs :: "(char \<Rightarrow> bool) \<Rightarrow> string \<Rightarrow> string list" where
  "split_runs C s =
     (let before = takeWhile (\<lambda>c. \<not> C c) s;
          rest = dropWhile (\<lambda>c. \<not> C c) s
      in if rest = [] then [before]
         else before # takeWhile C rest # split_runs C (dropWhile C rest))"
  by pat_completeness auto

termination split_runs
proof (relation "measure (\<lambda>(C, s). length s)")
  show "wf (measure (\<lambda>(C, s). length s))"
    by simp
next
  fix C :: "char \<Rightarrow> bool" and s before rest :: string
  assume rest_def: "rest = dropWhile (\<lambda>c. \<not> C c) s" and nonempty: "rest \<noteq> []"
  from nonempty obtain c cs where rest: "rest = c # cs"
    by (cases rest) auto
  have "C c"
    using hd_dropWhile [of "\<lambda>c. \<not> C c" s] nonempty rest unfolding rest_def by simp
  then have "length (dropWhile C rest) \<le> length cs"
    using rest by (simp add: length_dropWhile_le)
  also have "\<dots> < length rest"
    using rest by simp
  also have "\<dots> \<le> length s"
    unfolding rest_def by (rule length_dropWhile_le)
  finally show "((C, dropWhile C rest), (C, s)) \<in> measure (\<lambda>(C, s). length s)"
    by simp
qed

declare split_runs.simps [simp del]

section \<open>Exceptions\<close>

datatype error = TypeError | SyntaxError | ServiceError

section \<open>The synonym map of a sentence\<close>

text \<open>
  A synonym map is the object the provider returns: ``simple words as keys and arrays of 3
  synonyms as values''. Its own properties are an association list. Reading a property
  with \<^verbatim>\<open>obj[key]\<close> also finds what every object inherits from \<^verbatim>\<open>Object.prototype\<close>.
\<close>

type_synonym synonym_map = "(string \<times> string list) list"

datatype property = OwnValue "string list" | Inherited | Undefined

definition objectPrototypeNames :: "string list" where
  "objectPrototypeNames =
     [''constructor'', ''hasOwnProperty'', ''isPrototypeOf'', ''propertyIsEnumerable'',
      ''toLocaleString'', ''toString'', ''valueOf'', ''__proto__'', ''__defineGetter__'',
      ''__defineSetter__'', ''__lookupGetter__'', ''__lookupSetter__'']"

definition getProperty :: "synonym_map \<Rightarrow> string \<Rightarrow> property" where
  "getProperty obj key =
     (case map_of obj key of
        Some v \<Rightarrow> OwnValue v
      | None \<Rightarrow> if key \<in> set objectPrototypeNames then Inherited else Undefined)"

fun truthy :: "property \<Rightarrow> bool" where
  \<comment> \<open>an array and an inherited function or object are truthy, \<^verbatim>\<open>undefined\<close> is not\<close>
  "truthy (OwnValue v) = True"
| "truthy Inherited = True"
| "truthy Undefined = False"

section \<open>Rendering a line: \<^verbatim>\<open>renderTextWithSynonyms\<close>\<close>

datatype word_span = SynonymWord string | PlainWord string

datatype sentence_span = PlainSentence string | WordSpans "word_span list"

definition cleanWordRender :: "string \<Rightarrow> string" where
  \<comment> \<open>\<^verbatim>\<open>word.replace(/[.,!?;:"()]/g, '').toLowerCase()\<close>\<close>
  "cleanWordRender word = toLowerCase (stripPunctuation word)"

definition renderWord :: "bool \<Rightarrow> synonym_map \<Rightarrow> string \<Rightarrow> word_span" where
  "renderWord enableSynonyms sentenceSynonyms word =
     (let cleanWord = cleanWordRender word
      in if enableSynonyms \<and> truthy (getProperty sentenceSynonyms cleanWord) \<and> trim word \<noteq> []
         then SynonymWord word
         else PlainWord word)"

definition isDelimiterRun :: "string \<Rightarrow> bool" where
  \<comment> \<open>\<^verbatim>\<open>/^[.!?]+$/.test(sentence)\<close>\<close>
  "isDelimiterRun s \<longleftrightarrow> s \<noteq> [] \<and> list_all isSentenceDelimiter s"

definition renderSentence :: "bool \<Rightarrow> synonym_map \<Rightarrow> string \<Rightarrow> sentence_span" where
  "renderSentence enableSynonyms sentenceSynonyms sentence =
     (if trim sentence = [] \<or> isDelimiterRun sentence
      then PlainSentence sentence
      else WordSpans (map (renderWord enableSynonyms sentenceSynonyms)
                          (split_runs isWhiteSpace sentence)))"

definition renderTextWithSynonyms :: "bool \<Rightarrow> synonym_map \<Rightarrow> string \<Rightarrow> sentence_span list" where
  "renderTextWithSynonyms enableSynonyms sentenceSynonyms text =
     map (renderSentence enableSynonyms sentenceSynonyms) (split_runs isSentenceDelimiter text)"

text \<open>The text a rendered span shows, and the tokens of a rendered line in order.\<close>

fun wordText :: "word_span \<Rightarrow> string" where
  "wordText (SynonymWord w) = w"
| "wordText (PlainWord w) = w"

fun sentenceTokens :: "sentence_span \<Rightarrow> string list" where
  "sentenceTokens (PlainSentence s) = [s]"
| "sentenceTokens (WordSpans ws) = map wordText ws"

definition renderedTokens :: "sentence_span list \<Rightarrow> string list" where
  "renderedTokens spans = concat (map sentenceTokens spans)"

section \<open>Numbers\<close>

text \<open>
  A JavaScript number is an IEEE 754 double: not-a-number, one of the two infinities, or a
  finite value, kept here as the rational it denotes (the inputs of the handler are
  doubles, so rationals that a double can hold). The two zeros are not told apart; no
  operation of the hover handler does. The result of an operation is the exact result
  rounded to the nearest double, a tie going to the even significand: 53 bits of
  significand, \<open>pow2 (- 1074)\<close> the smallest step, and infinity from \<open>pow2 1024\<close> on.
\<close>

datatype number = NaN | PosInfinity | NegInfinity | Finite rat

definition pow2 :: "int \<Rightarrow> rat" where
  "pow2 k = (if 0 \<le> k then 2 ^ nat k else 1 / 2 ^ nat (- k))"

definition floorLog2 :: "rat \<Rightarrow> int" where
  \<comment> \<open>for \<open>0 < a\<close>, the \<open>e\<close> with \<open>pow2 e \<le> a < pow2 (e + 1)\<close>\<close>
  "floorLog2 a = (if 1 \<le> a then bitlen \<lfloor>a\<rfloor> - 1 else - bitlen (\<lceil>1 / a\<rceil> - 1))"

definition roundHalfEven :: "rat \<Rightarrow> int" where
  "roundHalfEven y =
     (let f = \<lfloor>y\<rfloor>; r = y - of_int f
      in if r < 1 / 2 then f else if 1 / 2 < r then f + 1 else if even f then f else f + 1)"

definition roundToDouble :: "rat \<Rightarrow> number" where
  "roundToDouble x =
     (if x = 0 then Finite 0
      else let a = \<bar>x\<bar>;
               e = floorLog2 a;
               q = max (e - 52) (- 1074);
               m = of_int (roundHalfEven (a / pow2 q)) * pow2 q
           in if m = 0 then Finite 0
              else if 1024 \<le> floorLog2 m then (if 0 < x then PosInfinity else NegInfinity)
              else Finite (if 0 < x then m else - m))"

fun js_negate :: "number \<Rightarrow> number" where
  "js_negate NaN = NaN"
| "js_negate PosInfinity = NegInfinity"
| "js_negate NegInfinity = PosInfinity"
| "js_negate (Finite x) = Finite (- x)"

fun js_add :: "number \<Rightarrow> number \<Rightarrow> number" where
  \<comment> \<open>\<^verbatim>\<open>a + b\<close>\<close>
  "js_add NaN b = NaN"
| "js_add a NaN = NaN"
| "js_add PosInfinity NegInfinity = NaN"
| "js_add NegInfinity PosInfinity = NaN"
| "js_add PosInfinity b = PosInfinity"
| "js_add a PosInfinity = PosInfinity"
| "js_add NegInfinity b = NegInfinity"
| "js_add a NegInfinity = NegInfinity"
| "js_add (Finite x) (Finite y) = roundToDouble (x + y)"

definition js_sub :: "number \<Rightarrow> number \<Rightarrow> number" where
  \<comment> \<open>\<^verbatim>\<open>a - b\<close>\<close>
  "js_sub a b = js_add a (js_negate b)"

fun halve :: "number \<Rightarrow> number" where
  \<comment> \<open>\<^verbatim>\<open>a / 2\<close>\<close>
  "halve (Finite x) = roundToDouble (x / 2)"
| "halve a = a"

fun js_less :: "number \<Rightarrow> number \<Rightarrow> bool" where
  \<comment> \<open>\<^verbatim>\<open>a < b\<close>; \<^verbatim>\<open>a > b\<close> is \<open>js_less b a\<close>. A comparison with not-a-number is false.\<close>
  "js_less NaN b = False"
| "js_less a NaN = False"
| "js_less a NegInfinity = False"
| "js_less PosInfinity b = False"
| "js_less NegInfinity b = True"
| "js_less a PosInfinity = True"
| "js_less (Finite x) (Finite y) = (x < y)"

fun js_max :: "number \<Rightarrow> number \<Rightarrow> number" where
  \<comment> \<open>\<^verbatim>\<open>Math.max(a, b)\<close>\<close>
  "js_max NaN b = NaN"
| "js_max a NaN = NaN"
| "js_max a b = (if js_less a b then b else a)"

section \<open>Hovering a word: \<^verbatim>\<open>handleWordHover\<close>\<close>

definition cleanWordHover :: "string \<Rightarrow> string" where
  \<comment> \<open>\<^verbatim>\<open>word.toLowerCase().replace(/[.,!?;:"()]/g, '')\<close>\<close>
  "cleanWordHover word = stripPunctuation (toLowerCase word)"

text \<open>\<^verbatim>\<open>getBoundingClientRect()\<close> gives the fields the handler reads.\<close>

record rect =
  rect_left :: number
  rect_top :: number
  rect_width :: number

fun join :: "string \<Rightarrow> string list \<Rightarrow> string" where
  "join sep [] = []"
| "join sep [x] = x"
| "join sep (x # y # ys) = x @ sep @ join sep (y # ys)"

definition bulletSeparator :: string where
  \<comment> \<open>space, bullet, space: three code units. The bullet U+2022 lies outside Latin-1 and
      only the length of the joined text is used, so U+00B7 stands for it.\<close>
  "bulletSeparator = [CHR 0x20, CHR 0xB7, CHR 0x20]"

definition tooltipEstimatedWidth :: "string list \<Rightarrow> number" where
  \<comment> \<open>\<^verbatim>\<open>Math.max(140, synonymText.length * 6.5 + 70)\<close>; a length and 6.5 are finite, so
      their product is the exact product rounded\<close>
  "tooltipEstimatedWidth wordSynonyms =
     (let synonymText = join bulletSeparator wordSynonyms
      in js_max (Finite 140)
           (js_add (roundToDouble (of_nat (length synonymText) * (13 / 2))) (Finite 70)))"

definition tooltipX :: "rect \<Rightarrow> rect \<Rightarrow> number \<Rightarrow> number \<Rightarrow> number" where
  "tooltipX r parentRect viewportWidth tooltipWidth =
     (let x = js_sub (js_add (rect_left r) (halve (rect_width r))) (rect_left parentRect);
          tooltipLeftEdge = js_sub (rect_left r) (halve tooltipWidth);
          tooltipRightEdge = js_add (rect_left r) (halve tooltipWidth)
      in if js_less tooltipLeftEdge (Finite 10)
         then js_add (js_sub (Finite 10) (rect_left parentRect)) (halve tooltipWidth)
         else if js_less (js_sub viewportWidth (Finite 10)) tooltipRightEdge
         then js_sub (js_sub (js_sub viewportWidth (Finite 10)) (rect_left parentRect))
                (halve tooltipWidth)
         else x)"

datatype hover_outcome =
    Ignored
  | Shown (hoveredWord: string) (synonyms: "string list") (tooltip_x: number) (tooltip_y: number)
  | Thrown error

definition handleWordHover ::
  "bool \<Rightarrow> synonym_map \<Rightarrow> string \<Rightarrow> rect \<Rightarrow> rect \<Rightarrow> number \<Rightarrow> hover_outcome" where
  \<comment> \<open>an inherited property is truthy and has no \<^verbatim>\<open>join\<close>: the call throws\<close>
  "handleWordHover enableSynonyms sentenceSynonyms word r parentRect viewportWidth =
     (if \<not> enableSynonyms then Ignored
      else let cleanWord = cleanWordHover word
           in case getProperty sentenceSynonyms cleanWord of
                Undefined \<Rightarrow> Ignored
              | Inherited \<Rightarrow> Thrown TypeError
              | OwnValue wordSynonyms \<Rightarrow>
                  Shown cleanWord wordSynonyms
                    (tooltipX r parentRect viewportWidth (tooltipEstimatedWidth wordSynonyms))
                    (js_sub (js_sub (rect_top r) (rect_top parentRect)) (Finite 10)))"

text \<open>
  The tooltip is placed at \<open>x\<close> inside the entry and centred there
  (\<^verbatim>\<open>translateX(-50%)\<close>). Its estimated footprint is a matter of geometry, not of the
  program: in viewport coordinates it runs from the first to the second component of
  \<open>tooltipFootprint\<close>, computed exactly.
\<close>

definition tooltipFootprint :: "rect \<Rightarrow> number \<Rightarrow> number \<Rightarrow> (rat \<times> rat) option" where
  "tooltipFootprint parentRect x tooltipWidth =
     (case (rect_left parentRect, x, tooltipWidth) of
        (Finite p, Finite a, Finite w) \<Rightarrow> Some (p + a - w / 2, p + a + w / 2)
      | _ \<Rightarrow> None)"

section \<open>Normalization\<close>

definition cacheKey :: "string \<Rightarrow> string" where
  \<comment> \<open>\<^verbatim>\<open>sentence.toLowerCase().trim()\<close>, in \<^verbatim>\<open>getSynonymsForSentence\<close> and in the effect of
      \<^verbatim>\<open>SynonymText\<close>\<close>
  "cacheKey sentence = trim (toLowerCase sentence)"


section \<open>\<^verbatim>\<open>JSON.parse\<close>\<close>

text \<open>
  A parsed value. A number keeps the text of its literal; an object keeps its own
  properties in the order of their first appearance. The text is cut into tokens and the
  tokens are read by a stack automaton; a text that is not JSON gives \<open>SyntaxError\<close>.
\<close>

datatype json =
    JNull
  | JBool bool
  | JNumber string
  | JString string
  | JArray "json list"
  | JObject "(string \<times> json) list"

datatype token =
    LBrace | RBrace | LBracket | RBracket | Colon | Comma
  | TString string | TNumber string | TTrue | TFalse | TNull

definition isDigit :: "char \<Rightarrow> bool" where
  "isDigit c \<longleftrightarrow> 48 \<le> (of_char c :: nat) \<and> (of_char c :: nat) \<le> 57"

definition isJSONWhiteSpace :: "char \<Rightarrow> bool" where
  "isJSONWhiteSpace c \<longleftrightarrow> c = CHR 0x09 \<or> c = CHR 0x0A \<or> c = CHR 0x0D \<or> c = CHR 0x20"

definition hexValue :: "char \<Rightarrow> nat option" where
  "hexValue c =
     (let n = (of_char c :: nat)
      in if 48 \<le> n \<and> n \<le> 57 then Some (n - 48)
         else if 97 \<le> n \<and> n \<le> 102 then Some (n - 87)
         else if 65 \<le> n \<and> n \<le> 70 then Some (n - 55)
         else None)"

definition unicodeEscape :: "string \<Rightarrow> char option" where
  \<comment> \<open>four hexadecimal digits name a code unit; the model keeps its low eight bits\<close>
  "unicodeEscape digits =
     (case map hexValue digits of
        [Some h3, Some h2, Some h1, Some h0] \<Rightarrow>
          Some (char_of (((h3 * 16 + h2) * 16 + h1) * 16 + h0))
      | _ \<Rightarrow> None)"

definition simpleEscape :: "char \<Rightarrow> char option" where
  "simpleEscape e =
     (if e = CHR 0x22 then Some (CHR 0x22)
      else if e = CHR 0x5C then Some (CHR 0x5C)
      else if e = CHR ''/'' then Some (CHR ''/'')
      else if e = CHR ''b'' then Some (CHR 0x08)
      else if e = CHR ''f'' then Some (CHR 0x0C)
      else if e = CHR ''n'' then Some (CHR 0x0A)
      else if e = CHR ''r'' then Some (CHR 0x0D)
      else if e = CHR ''t'' then Some (CHR 0x09)
      else None)"

fun lexString :: "string \<Rightarrow> string \<Rightarrow> (string \<times> string) option" where
  "lexString acc [] = None"
| "lexString acc (c # cs) =
     (if c = CHR 0x22 then Some (rev acc, cs)
      else if c = CHR 0x5C then
        (case cs of
           [] \<Rightarrow> None
         | e # cs1 \<Rightarrow>
             if e = CHR ''u'' then
               (case unicodeEscape (take 4 cs1) of
                  None \<Rightarrow> None
                | Some x \<Rightarrow> lexString (x # acc) (drop 4 cs1))
             else
               (case simpleEscape e of
                  None \<Rightarrow> None
                | Some x \<Rightarrow> lexString (x # acc) cs1))
      else if (of_char c :: nat) < 0x20 then None
      else lexString (c # acc) cs)"

definition digitsThenEnd :: "string \<Rightarrow> bool" where
  "digitsThenEnd s \<longleftrightarrow> s \<noteq> [] \<and> list_all isDigit s"

definition exponentOrEnd :: "string \<Rightarrow> bool" where
  "exponentOrEnd s =
     (case s of
        [] \<Rightarrow> True
      | e # r \<Rightarrow>
          (e = CHR ''e'' \<or> e = CHR ''E'') \<and>
          (case r of
             [] \<Rightarrow> False
           | sg # r1 \<Rightarrow> if sg = CHR ''+'' \<or> sg = CHR ''-'' then digitsThenEnd r1 else digitsThenEnd r))"

definition fractionOrExponent :: "string \<Rightarrow> bool" where
  "fractionOrExponent s =
     (case s of
        [] \<Rightarrow> True
      | d # r \<Rightarrow>
          if d = CHR ''.''
          then takeWhile isDigit r \<noteq> [] \<and> exponentOrEnd (dropWhile isDigit r)
          else exponentOrEnd s)"

definition isJSONNumber :: "string \<Rightarrow> bool" where
  "isJSONNumber s =
     (let unsigned = (case s of [] \<Rightarrow> [] | c # r \<Rightarrow> if c = CHR ''-'' then r else s);
          int_part = takeWhile isDigit unsigned
      in int_part \<noteq> [] \<and> (if take 1 int_part = ''0'' then length int_part = 1 else True) \<and>
         fractionOrExponent (dropWhile isDigit unsigned))"

definition isNumberChar :: "char \<Rightarrow> bool" where
  "isNumberChar c \<longleftrightarrow>
     isDigit c \<or> c = CHR ''+'' \<or> c = CHR ''-'' \<or> c = CHR ''.'' \<or> c = CHR ''e'' \<or> c = CHR ''E''"

function tokenizeJSON :: "string \<Rightarrow> token list option" where
  "tokenizeJSON [] = Some []"
| "tokenizeJSON (c # cs) =
     (if isJSONWhiteSpace c then tokenizeJSON cs
      else if c = CHR ''{'' then map_option ((#) LBrace) (tokenizeJSON cs)
      else if c = CHR ''}'' then map_option ((#) RBrace) (tokenizeJSON cs)
      else if c = CHR ''['' then map_option ((#) LBracket) (tokenizeJSON cs)
      else if c = CHR '']'' then map_option ((#) RBracket) (tokenizeJSON cs)
      else if c = CHR '':'' then map_option ((#) Colon) (tokenizeJSON cs)
      else if c = CHR '','' then map_option ((#) Comma) (tokenizeJSON cs)
      else if c = CHR 0x22 then
        (case lexString [] cs of
           None \<Rightarrow> None
         | Some (str, rest) \<Rightarrow> map_option ((#) (TString str)) (tokenizeJSON rest))
      else if c = CHR ''-'' \<or> isDigit c then
        (if isJSONNumber (c # takeWhile isNumberChar cs)
         then map_option ((#) (TNumber (c # takeWhile isNumberChar cs)))
                (tokenizeJSON (dropWhile isNumberChar cs))
         else None)
      else if take 4 (c # cs) = ''true'' then map_option ((#) TTrue) (tokenizeJSON (drop 3 cs))
      else if take 5 (c # cs) = ''false'' then map_option ((#) TFalse) (tokenizeJSON (drop 4 cs))
      else if take 4 (c # cs) = ''null'' then map_option ((#) TNull) (tokenizeJSON (drop 3 cs))
      else None)"
  by pat_completeness auto

termination tokenizeJSON
proof (relation "measure length")
  show "wf (measure length)"
    by simp
next
  fix c :: char and cs x y :: string and x2 :: "string \<times> string"
  assume "lexString [] cs = Some x2" and "(x, y) = x2"
  then have lexed: "lexString [] cs = Some (x, y)"
    by simp
  have "length rest \<le> length s" if "lexString acc s = Some (str, rest)" for acc s str rest
    using that
  proof (induction acc s rule: lexString.induct)
    case (1 acc)
    then show ?case by simp
  next
    case (2 acc c cs)
    show ?case
    proof (cases "c = CHR 0x22")
      case True
      with "2.prems" show ?thesis by simp
    next
      case notq: False
      show ?thesis
      proof (cases "c = CHR 0x5C")
        case False
        with notq "2.prems" "2.IH"(3) show ?thesis
          by (auto split: if_splits)
      next
        case True
        with notq "2.prems" obtain e cs1 where cs: "cs = e # cs1"
          by (cases cs) auto
        show ?thesis
        proof (cases "e = CHR ''u''")
          case u: True
          with notq True cs "2.prems" obtain x where
            x: "unicodeEscape (take 4 cs1) = Some x" and
            r: "lexString (x # acc) (drop 4 cs1) = Some (str, rest)"
            by (auto split: option.splits)
          from "2.IH"(1) [OF notq True cs u x r] show ?thesis
            using cs by simp
        next
          case nu: False
          with notq True cs "2.prems" obtain x where
            x: "simpleEscape e = Some x" and
            r: "lexString (x # acc) cs1 = Some (str, rest)"
            by (auto split: option.splits)
          from "2.IH"(2) [OF notq True cs nu x r] show ?thesis
            using cs by simp
        qed
      qed
    qed
  qed
  from this [OF lexed] show "(y, c # cs) \<in> measure length"
    by simp
qed (simp_all add: length_dropWhile_le le_imp_less_Suc)


text \<open>
  \<^verbatim>\<open>JSON.parse\<close> over the tokens: a stack of the arrays and objects that are open, and
  what may come next. A value that is complete goes to the innermost open container, or is
  the result when none is open. A key that is repeated keeps its place and takes the later
  value.
\<close>

datatype frame =
    ArrayFrame "json list"
  | ObjectFrame "(string \<times> json) list" "string option"

datatype expect =
    Value
  | ValueOrEnd
  | KeyOrEnd
  | Key
  | ColonNext
  | CommaOrEnd
  | Done json

fun deliver :: "json \<Rightarrow> frame list \<Rightarrow> (expect \<times> frame list) option" where
  "deliver v [] = Some (Done v, [])"
| "deliver v (ArrayFrame elems # stack) = Some (CommaOrEnd, ArrayFrame (v # elems) # stack)"
| "deliver v (ObjectFrame members (Some k) # stack) =
     Some (CommaOrEnd, ObjectFrame (AList.update k v members) None # stack)"
| "deliver v (ObjectFrame members None # stack) = None"

fun startValue :: "token \<Rightarrow> frame list \<Rightarrow> (expect \<times> frame list) option" where
  "startValue LBrace stack = Some (KeyOrEnd, ObjectFrame [] None # stack)"
| "startValue LBracket stack = Some (ValueOrEnd, ArrayFrame [] # stack)"
| "startValue (TString s) stack = deliver (JString s) stack"
| "startValue (TNumber n) stack = deliver (JNumber n) stack"
| "startValue TTrue stack = deliver (JBool True) stack"
| "startValue TFalse stack = deliver (JBool False) stack"
| "startValue TNull stack = deliver JNull stack"
| "startValue _ stack = None"

fun closeArray :: "frame list \<Rightarrow> (expect \<times> frame list) option" where
  "closeArray (ArrayFrame elems # stack) = deliver (JArray (rev elems)) stack"
| "closeArray _ = None"

fun closeObject :: "frame list \<Rightarrow> (expect \<times> frame list) option" where
  "closeObject (ObjectFrame members None # stack) = deliver (JObject members) stack"
| "closeObject _ = None"

fun startKey :: "token \<Rightarrow> frame list \<Rightarrow> (expect \<times> frame list) option" where
  "startKey (TString k) (ObjectFrame members None # stack) =
     Some (ColonNext, ObjectFrame members (Some k) # stack)"
| "startKey _ _ = None"

fun parseStep :: "expect \<times> frame list \<Rightarrow> token \<Rightarrow> (expect \<times> frame list) option" where
  "parseStep (Value, stack) t = startValue t stack"
| "parseStep (ValueOrEnd, stack) t = (if t = RBracket then closeArray stack else startValue t stack)"
| "parseStep (KeyOrEnd, stack) t = (if t = RBrace then closeObject stack else startKey t stack)"
| "parseStep (Key, stack) t = startKey t stack"
| "parseStep (ColonNext, stack) t = (if t = Colon then Some (Value, stack) else None)"
| "parseStep (CommaOrEnd, ArrayFrame elems # stack) t =
     (if t = Comma then Some (Value, ArrayFrame elems # stack)
      else if t = RBracket then closeArray (ArrayFrame elems # stack)
      else None)"
| "parseStep (CommaOrEnd, ObjectFrame members k # stack) t =
     (if t = Comma then Some (Key, ObjectFrame members k # stack)
      else if t = RBrace then closeObject (ObjectFrame members k # stack)
      else None)"
| "parseStep (CommaOrEnd, []) t = None"
| "parseStep (Done v, stack) t = None"

fun parseTokens :: "expect \<times> frame list \<Rightarrow> token list \<Rightarrow> (expect \<times> frame list) option" where
  "parseTokens st [] = Some st"
| "parseTokens st (t # ts) =
     (case parseStep st t of None \<Rightarrow> None | Some st' \<Rightarrow> parseTokens st' ts)"

definition JSON_parse :: "string \<Rightarrow> error + json" where
  "JSON_parse text =
     (case tokenizeJSON text of
        None \<Rightarrow> Inl SyntaxError
      | Some tokens \<Rightarrow>
          (case parseTokens (Value, []) tokens of
             Some (Done v, []) \<Rightarrow> Inr v
           | _ \<Rightarrow> Inl SyntaxError))"

section \<open>The synonym provider: \<^verbatim>\<open>getSynonymsForSentence\<close> of \<^verbatim>\<open>Backend/custom.js\<close>\<close>

text \<open>
  What \<^verbatim>\<open>await AIService.generateText(prompt)\<close> gives: the call is rejected, or it
  resolves to \<^verbatim>\<open>response.text\<close>, a string or \<^verbatim>\<open>undefined\<close>.
\<close>

datatype generated = Rejected | Resolved "string option"

definition matchBraceLazy :: "string \<Rightarrow> string option" where
  \<comment> \<open>\<^verbatim>\<open>response.match(/\{[\s\S]*?\}/)\<close>: from the first opening brace to the first closing
      brace after it\<close>
  "matchBraceLazy s =
     (case dropWhile (\<lambda>c. c \<noteq> CHR ''{'') s of
        [] \<Rightarrow> None
      | brace # body \<Rightarrow>
          if CHR ''}'' \<in> set body
          then Some (brace # takeWhile (\<lambda>c. c \<noteq> CHR ''}'') body @ ''}'')
          else None)"

definition isBrace :: "char \<Rightarrow> bool" where
  "isBrace c \<longleftrightarrow> c = CHR ''{'' \<or> c = CHR ''}''"

fun matchBraceFlat :: "string \<Rightarrow> string option" where
  \<comment> \<open>\<^verbatim>\<open>match(/\{[^{}]*\}/)\<close>: the first opening brace whose next brace is a closing one\<close>
  "matchBraceFlat [] = None"
| "matchBraceFlat (c # cs) =
     (if c = CHR ''{'' \<and> take 1 (dropWhile (\<lambda>d. \<not> isBrace d) cs) = ''}''
      then Some (c # takeWhile (\<lambda>d. \<not> isBrace d) cs @ ''}'')
      else matchBraceFlat cs)"

definition removeLineBreaksAndTabs :: "string \<Rightarrow> string" where
  \<comment> \<open>\<^verbatim>\<open>response.replace(/[\n\r\t]/g, '')\<close>\<close>
  "removeLineBreaksAndTabs s =
     filter (\<lambda>c. \<not> (c = CHR 0x0A \<or> c = CHR 0x0D \<or> c = CHR 0x09)) s"

fun isNonEmptyObject :: "json \<Rightarrow> bool" where
  \<comment> \<open>\<^verbatim>\<open>v && typeof v === 'object' && Object.keys(v).length > 0\<close>\<close>
  "isNonEmptyObject (JObject members) = (members \<noteq> [])"
| "isNonEmptyObject (JArray elems) = (elems \<noteq> [])"
| "isNonEmptyObject _ = False"

definition extractSynonyms :: "string \<Rightarrow> json" where
  "extractSynonyms response =
     (case matchBraceLazy response of
        None \<Rightarrow> JObject []
      | Some jsonMatch \<Rightarrow>
          (case JSON_parse jsonMatch of
             Inr parsed \<Rightarrow> if isNonEmptyObject parsed then parsed else JObject []
           | Inl e \<Rightarrow>
               (case matchBraceFlat (removeLineBreaksAndTabs response) of
                  None \<Rightarrow> JObject []
                | Some cleanJson \<Rightarrow>
                    (case JSON_parse cleanJson of
                       Inr v \<Rightarrow> v
                     | Inl e' \<Rightarrow> JObject []))))"

definition awaitAndExtract :: "generated \<Rightarrow> error + json" where
  \<comment> \<open>the body of the outer \<^verbatim>\<open>try\<close>: a rejected call throws, and so does
      \<^verbatim>\<open>response.match\<close> on \<^verbatim>\<open>undefined\<close>\<close>
  "awaitAndExtract reply =
     (case reply of
        Rejected \<Rightarrow> Inl ServiceError
      | Resolved None \<Rightarrow> Inl TypeError
      | Resolved (Some response) \<Rightarrow> Inr (extractSynonyms response))"

definition CustomAIService_getSynonymsForSentence :: "generated \<Rightarrow> error + json" where
  \<comment> \<open>the outer \<^verbatim>\<open>catch\<close> returns the empty object\<close>
  "CustomAIService_getSynonymsForSentence reply =
     (case awaitAndExtract reply of
        Inl e \<Rightarrow> Inr (JObject [])
      | Inr v \<Rightarrow> Inr v)"

definition secondParseFails :: "string \<Rightarrow> bool" where
  \<comment> \<open>the retry finds no flat brace group in the cleaned response, or cannot parse it\<close>
  "secondParseFails response =
     (case matchBraceFlat (removeLineBreaksAndTabs response) of
        None \<Rightarrow> True
      | Some cleanJson \<Rightarrow> isl (JSON_parse cleanJson))"

definition objectAtRoot :: "frame list \<Rightarrow> bool" where
  \<comment> \<open>the outermost open container is an object\<close>
  "objectAtRoot stack \<longleftrightarrow>
     stack \<noteq> [] \<and> (case last stack of ObjectFrame members k \<Rightarrow> True | ArrayFrame elems \<Rightarrow> False)"

fun rootedInObject :: "expect \<times> frame list \<Rightarrow> bool" where
  \<comment> \<open>a parse that began with an opening brace: an object is still open at the root, or
      the result is an object\<close>
  "rootedInObject (Done v, stack) =
     (stack = [] \<and> (case v of JObject members \<Rightarrow> True | _ \<Rightarrow> False))"
| "rootedInObject (e, stack) = objectAtRoot stack"

section \<open>The synonym cache and the lookup: \<^verbatim>\<open>getSynonymsForSentence\<close> of \<^verbatim>\<open>App.js\<close>\<close>

text \<open>
  \<^verbatim>\<open>SYNONYMS_CACHE\<close> is a \<^verbatim>\<open>Map\<close>: its entries in the order of insertion, each key once.
  \<open>externalCalls\<close> lists the sentences sent to the generative service, oldest first.
\<close>

record lookup_state =
  SYNONYMS_CACHE :: "(string \<times> json) list"
  externalCalls :: "string list"

datatype lookup = CacheHit json | AwaitingService

definition lookupStart :: "'a lookup_state_scheme \<Rightarrow> string \<Rightarrow> lookup \<times> 'a lookup_state_scheme" where
  \<comment> \<open>up to the \<^verbatim>\<open>await\<close>: a hit returns the cached value, a miss sends the request\<close>
  "lookupStart s sentence =
     (case map_of (SYNONYMS_CACHE s) (cacheKey sentence) of
        Some v \<Rightarrow> (CacheHit v, s)
      | None \<Rightarrow> (AwaitingService, s\<lparr>externalCalls := externalCalls s @ [sentence]\<rparr>))"

definition lookupFinish ::
  "'a lookup_state_scheme \<Rightarrow> string \<Rightarrow> generated \<Rightarrow> json \<times> 'a lookup_state_scheme" where
  \<comment> \<open>after the \<^verbatim>\<open>await\<close>: only an object with at least one key is cached\<close>
  "lookupFinish s sentence reply =
     (case CustomAIService_getSynonymsForSentence reply of
        Inl e \<Rightarrow> (JObject [], s)
      | Inr synonymsObject \<Rightarrow>
          if isNonEmptyObject synonymsObject
          then (synonymsObject,
                s\<lparr>SYNONYMS_CACHE :=
                    AList.update (cacheKey sentence) synonymsObject (SYNONYMS_CACHE s)\<rparr>)
          else (JObject [], s))"

definition getSynonymsForSentence ::
  "'a lookup_state_scheme \<Rightarrow> string \<Rightarrow> generated \<Rightarrow> json \<times> 'a lookup_state_scheme" where
  \<comment> \<open>one whole call; \<open>reply\<close> is what the service answers if it is asked\<close>
  "getSynonymsForSentence s sentence reply =
     (case lookupStart s sentence of
        (CacheHit v, s') \<Rightarrow> (v, s')
      | (AwaitingService, s') \<Rightarrow> lookupFinish s' sentence reply)"

fun repeatedLookups ::
  "'a lookup_state_scheme \<Rightarrow> string \<Rightarrow> generated list \<Rightarrow> 'a lookup_state_scheme" where
  \<comment> \<open>the same sentence looked up again and again, each call complete before the next\<close>
  "repeatedLookups s sentence [] = s"
| "repeatedLookups s sentence (reply # replies) =
     repeatedLookups (snd (getSynonymsForSentence s sentence reply)) sentence replies"

fun isNonEmptyMapping :: "json \<Rightarrow> bool" where
  "isNonEmptyMapping (JObject members) = (members \<noteq> [])"
| "isNonEmptyMapping _ = False"

section \<open>The component \<^verbatim>\<open>SynonymText\<close>: loading the synonyms of an entry\<close>

text \<open>
  Every instance of the component, named by a number, has its own \<^verbatim>\<open>isLoadingRef\<close> and
  its own \<^verbatim>\<open>sentenceSynonyms\<close> (the field \<open>sentenceSynonymsOf\<close>); the cache is shared.
\<close>

record page = lookup_state +
  isLoading :: "nat \<Rightarrow> bool"
  sentenceSynonymsOf :: "nat \<Rightarrow> json"

fun hasKeys :: "json \<Rightarrow> bool" where
  \<comment> \<open>\<^verbatim>\<open>v && Object.keys(v).length > 0\<close>; the keys of a string are its indices\<close>
  "hasKeys (JObject members) = (members \<noteq> [])"
| "hasKeys (JArray elems) = (elems \<noteq> [])"
| "hasKeys (JString s) = (s \<noteq> [])"
| "hasKeys _ = False"

definition loadSentenceSynonyms_start :: "page \<Rightarrow> nat \<Rightarrow> string \<Rightarrow> lookup option \<times> page" where
  \<comment> \<open>up to the \<^verbatim>\<open>await\<close>; \<open>None\<close> is the early return\<close>
  "loadSentenceSynonyms_start s c txt =
     (if trim txt = [] \<or> isLoading s c then (None, s)
      else (case lookupStart (s\<lparr>isLoading := (isLoading s)(c := True)\<rparr>) txt of
              (pending, s') \<Rightarrow> (Some pending, s')))"

definition loadSentenceSynonyms_finish ::
  "page \<Rightarrow> nat \<Rightarrow> string \<Rightarrow> lookup \<Rightarrow> generated \<Rightarrow> page" where
  \<comment> \<open>after the \<^verbatim>\<open>await\<close>, with the \<^verbatim>\<open>finally\<close> block\<close>
  "loadSentenceSynonyms_finish s c txt pending reply =
     (case (case pending of
              CacheHit v \<Rightarrow> (v, s)
            | AwaitingService \<Rightarrow> lookupFinish s txt reply) of
        (synonymsData, s') \<Rightarrow>
          (if hasKeys synonymsData
           then s'\<lparr>sentenceSynonymsOf := (sentenceSynonymsOf s')(c := synonymsData)\<rparr>
           else s')\<lparr>isLoading := (isLoading s')(c := False)\<rparr>)"

definition effect :: "page \<Rightarrow> nat \<Rightarrow> string \<Rightarrow> bool \<Rightarrow> page" where
  \<comment> \<open>the effect that runs when the component mounts or its text changes\<close>
  "effect s c txt enableSynonyms =
     (if enableSynonyms \<and> txt \<noteq> [] \<and> trim txt \<noteq> [] \<and> \<not> isLoading s c
      then (case map_of (SYNONYMS_CACHE s) (cacheKey txt) of
              Some v \<Rightarrow> s\<lparr>sentenceSynonymsOf := (sentenceSynonymsOf s)(c := v)\<rparr>
            | None \<Rightarrow> snd (loadSentenceSynonyms_start s c txt))
      else s)"

definition initialPage :: page where
  "initialPage =
     \<lparr>SYNONYMS_CACHE = [], externalCalls = [],
      isLoading = (\<lambda>c. False), sentenceSynonymsOf = (\<lambda>c. JObject [])\<rparr>"

section \<open>Sessions: \<^verbatim>\<open>loadSession\<close>\<close>

text \<open>
  A \<^verbatim>\<open>Date\<close> holds a time in milliseconds or is invalid. \<^verbatim>\<open>new Date(string)\<close>, the clock
  and \<^verbatim>\<open>toLocaleTimeString\<close> belong to the platform: the model takes them as the
  parameters \<open>parseDate\<close>, \<open>now\<close> and \<open>format\<close>.
\<close>

datatype date = ValidDate int | InvalidDate

record stored_entry =
  stored_id :: int
  stored_text :: string
  stored_timestamp :: "string option"
  stored_colorIndex :: int

record entry =
  entry_id :: int
  entry_text :: string
  entry_timestamp :: date
  entry_colorIndex :: int

text \<open>
  A stored session. A field that a stored document lacks is \<open>None\<close>; a message of the
  conversation history is a role and a text.
\<close>

record session_data =
  session_leftEntries :: "stored_entry list option"
  session_rightEntries :: "stored_entry list option"
  session_conversationHistory :: "(string \<times> string) list option"
  session_vocabularyData :: "(string \<times> json) list option"

datatype fetched = FetchFailed | NoSuchNotebook | Notebook session_data

record app_state = lookup_state +
  leftEntries :: "entry list"
  rightEntries :: "entry list"
  conversationHistory :: "(string \<times> string) list"
  currentSessionId :: "string option"
  lastUserInput :: string
  improvedSentence :: string
  isGeneratingImprovement :: bool
  showNotebooksList :: bool
  isLoadingSession :: bool
  alerts :: "string list"

definition restoreTimestamp :: "(string \<Rightarrow> date) \<Rightarrow> int \<Rightarrow> string option \<Rightarrow> int" where
  "restoreTimestamp parseDate now stored =
     (case stored of
        None \<Rightarrow> now
      | Some s \<Rightarrow>
          if s = [] then now
          else (case parseDate s of
                  ValidDate t \<Rightarrow> t
                | InvalidDate \<Rightarrow> now))"

definition restoreEntry :: "(string \<Rightarrow> date) \<Rightarrow> int \<Rightarrow> stored_entry \<Rightarrow> entry" where
  "restoreEntry parseDate now e =
     \<lparr>entry_id = stored_id e, entry_text = stored_text e,
      entry_timestamp = ValidDate (restoreTimestamp parseDate now (stored_timestamp e)),
      entry_colorIndex = stored_colorIndex e\<rparr>"

definition restoreVocabulary :: "(string \<times> json) list \<Rightarrow> (string \<times> json) list" where
  \<comment> \<open>\<^verbatim>\<open>SYNONYMS_CACHE.clear()\<close>, then \<^verbatim>\<open>set\<close> for every entry of the stored object\<close>
  "restoreVocabulary vocabularyData = fold (\<lambda>(key, v) cache. AList.update key v cache) vocabularyData []"

definition orEmpty :: "'a list option \<Rightarrow> 'a list" where
  \<comment> \<open>\<^verbatim>\<open>xs || []\<close>\<close>
  "orEmpty xs = (case xs of None \<Rightarrow> [] | Some ys \<Rightarrow> ys)"

definition loadSession ::
  "(string \<Rightarrow> date) \<Rightarrow> int \<Rightarrow> app_state \<Rightarrow> string \<Rightarrow> fetched \<Rightarrow> app_state" where
  \<comment> \<open>\<open>fetched\<close> is the outcome of \<^verbatim>\<open>DatabaseService.getNotebook(sessionId)\<close>; the save
      of the current session that comes first changes the store only\<close>
  "loadSession parseDate now s sessionId fetched =
     (case fetched of
        FetchFailed \<Rightarrow>
          s\<lparr>alerts := alerts s @ [''Failed to load session. Please try again.''],
            isLoadingSession := False\<rparr>
      | NoSuchNotebook \<Rightarrow>
          s\<lparr>alerts := alerts s @ [''Failed to load session data''],
            isLoadingSession := False\<rparr>
      | Notebook sessionData \<Rightarrow>
          s\<lparr>leftEntries := map (restoreEntry parseDate now) (orEmpty (session_leftEntries sessionData)),
            rightEntries := map (restoreEntry parseDate now) (orEmpty (session_rightEntries sessionData)),
            conversationHistory := orEmpty (session_conversationHistory sessionData),
            currentSessionId := Some sessionId,
            lastUserInput := [],
            improvedSentence := [],
            isGeneratingImprovement := False,
            SYNONYMS_CACHE :=
              (case session_vocabularyData sessionData of
                 None \<Rightarrow> SYNONYMS_CACHE s
               | Some vocabularyData \<Rightarrow> restoreVocabulary vocabularyData),
            showNotebooksList := False,
            isLoadingSession := False\<rparr>)"

definition displayTimestamp :: "(int \<Rightarrow> string) \<Rightarrow> int \<Rightarrow> date \<Rightarrow> string" where
  \<comment> \<open>the timestamp line of an entry in \<^verbatim>\<open>NotebookComponent\<close>\<close>
  "displayTimestamp format nowAtRender timestamp =
     (case timestamp of
        InvalidDate \<Rightarrow> format nowAtRender
      | ValidDate t \<Rightarrow> format t)"

text \<open>A stored session, a state and a date parser for the examples.\<close>

definition sampleParseDate :: "string \<Rightarrow> date" where
  \<comment> \<open>a parser for the examples: it knows one date and rejects every other text\<close>
  "sampleParseDate s = (if s = ''2025-01-01T00:00:00.000Z'' then ValidDate 1735689600000 else InvalidDate)"

definition sampleSession :: session_data where
  "sampleSession =
     \<lparr>session_leftEntries = Some
        [\<lparr>stored_id = 1, stored_text = ''I am sad'', stored_timestamp = Some ''not a date'',
          stored_colorIndex = 0\<rparr>,
         \<lparr>stored_id = 3, stored_text = ''It rained'', stored_timestamp = Some ''2025-01-01T00:00:00.000Z'',
          stored_colorIndex = 1\<rparr>],
      session_rightEntries = Some
        [\<lparr>stored_id = 2, stored_text = ''Tell me more'', stored_timestamp = None,
          stored_colorIndex = 0\<rparr>],
      session_conversationHistory = None,
      session_vocabularyData = Some
        [(''sad'', JArray [JString ''unhappy'', JString ''gloomy'', JString ''downhearted''])]\<rparr>"

definition freshSession :: session_data where
  \<comment> \<open>a session as \<^verbatim>\<open>createNewSession\<close> stores it through \<^verbatim>\<open>saveNotebookSession\<close>: a
      title, a type and three empty lists, and no \<^verbatim>\<open>vocabularyData\<close>\<close>
  "freshSession =
     \<lparr>session_leftEntries = Some [], session_rightEntries = Some [],
      session_conversationHistory = Some [], session_vocabularyData = None\<rparr>"

definition sampleState :: app_state where
  "sampleState =
     \<lparr>SYNONYMS_CACHE = [(''i am happy'', JObject [(''happy'', JArray [JString ''glad''])])],
      externalCalls = [], leftEntries = [], rightEntries = [], conversationHistory = [],
      currentSessionId = None, lastUserInput = [], improvedSentence = [],
      isGeneratingImprovement = False, showNotebooksList = True, isLoadingSession = True,
      alerts = []\<rparr>"

section \<open>Properties of the tokenizer\<close>

lemma split_runs_unfold:
  "split_runs C s =
     (if dropWhile (\<lambda>c. \<not> C c) s = [] then [takeWhile (\<lambda>c. \<not> C c) s]
      else takeWhile (\<lambda>c. \<not> C c) s # takeWhile C (dropWhile (\<lambda>c. \<not> C c) s)
             # split_runs C (dropWhile C (dropWhile (\<lambda>c. \<not> C c) s)))"
  using split_runs.simps [of C s] by (simp only: Let_def)

lemma concat_split_runs: "concat (split_runs C s) = s"
proof (induction C s rule: split_runs.induct)
  case (1 C s)
  let ?rest = "dropWhile (\<lambda>c. \<not> C c) s"
  show ?case
  proof (cases "?rest = []")
    case True
    have "split_runs C s = [takeWhile (\<lambda>c. \<not> C c) s]"
      by (simp add: split_runs_unfold [of C s] True)
    moreover have "takeWhile (\<lambda>c. \<not> C c) s = s"
      using takeWhile_dropWhile_id [of "\<lambda>c. \<not> C c" s] True by (simp del: takeWhile_dropWhile_id)
    ultimately show ?thesis by simp
  next
    case False
    have ih: "concat (split_runs C (dropWhile C ?rest)) = dropWhile C ?rest"
      by (rule "1.IH" [OF refl refl False])
    have "split_runs C s =
            takeWhile (\<lambda>c. \<not> C c) s # takeWhile C ?rest # split_runs C (dropWhile C ?rest)"
      using False by (simp add: split_runs_unfold [of C s])
    then have "concat (split_runs C s) =
            takeWhile (\<lambda>c. \<not> C c) s @ takeWhile C ?rest @ dropWhile C ?rest"
      by (simp only: concat.simps ih)
    then show ?thesis
      by (simp only: takeWhile_dropWhile_id)
  qed
qed

lemma wordText_renderWord: "wordText (renderWord en syn w) = w"
  by (simp add: renderWord_def Let_def)

lemma concat_sentenceTokens: "concat (sentenceTokens (renderSentence en syn s)) = s"
proof (cases "trim s = [] \<or> isDelimiterRun s")
  case True
  then show ?thesis
    by (simp add: renderSentence_def)
next
  case False
  then have "sentenceTokens (renderSentence en syn s) = split_runs isWhiteSpace s"
    by (simp add: renderSentence_def comp_def wordText_renderWord)
  then show ?thesis
    by (simp add: concat_split_runs)
qed

text \<open>
  Claim C1. For every line of text, whatever the annotation flag and the synonym map, the
  tokens of the rendered line (sentence spans cut at runs of \<^verbatim>\<open>.\<close>, \<^verbatim>\<open>!\<close>,
  \<^verbatim>\<open>?\<close> with the runs kept, each other span cut at runs of whitespace with the whitespace
  kept) concatenate, in order, to exactly the line.
\<close>

theorem tokenize_roundtrip:
  "concat (renderedTokens (renderTextWithSynonyms enableSynonyms sentenceSynonyms text)) = text"
proof -
  have "concat (renderedTokens (map (renderSentence enableSynonyms sentenceSynonyms) ss)) = concat ss"
    for ss
    by (induction ss) (simp_all add: renderedTokens_def concat_sentenceTokens)
  then show ?thesis
    by (simp add: renderTextWithSynonyms_def concat_split_runs)
qed

section \<open>Properties of the annotation renderer\<close>

text \<open>
  For a synonym map of the documented shape, whose values are arrays and so truthy, and
  apart from names inherited from \<^verbatim>\<open>Object.prototype\<close>: a word token, one with
  something other than whitespace in it, is rendered as a synonym word exactly when
  annotation is enabled and its cleaned form is a key of the synonym map.
\<close>

lemma renderWord_interactive_iff:
  assumes "cleanWordRender w \<notin> set objectPrototypeNames" and "trim w \<noteq> []"
  shows "renderWord enableSynonyms sentenceSynonyms w = SynonymWord w \<longleftrightarrow>
         enableSynonyms \<and> cleanWordRender w \<in> fst ` set sentenceSynonyms"
proof -
  have "truthy (getProperty sentenceSynonyms (cleanWordRender w)) \<longleftrightarrow>
        cleanWordRender w \<in> fst ` set sentenceSynonyms"
    using assms(1)
    by (cases "map_of sentenceSynonyms (cleanWordRender w)")
       (simp_all add: getProperty_def dom_map_of_conv_image_fst [symmetric] domIff)
  then show ?thesis
    using assms(2) by (simp add: renderWord_def Let_def)
qed

text \<open>
  Claim C4. A word token is rendered as interactive if and only if the entry is
  annotation-enabled and the normalized word is a key of the active synonym map. The
  renderer tests \<^verbatim>\<open>sentenceSynonyms[cleanWord]\<close> for truthiness, which also finds
  inherited properties: in an annotation-enabled entry with the empty synonym map, the
  word \<^verbatim>\<open>constructor\<close> is rendered as a synonym word although it is no key of the map.
\<close>

theorem render_inherited_name_interactive:
  "renderTextWithSynonyms True [] ''constructor'' = [WordSpans [SynonymWord ''constructor'']] \<and>
   map_of ([] :: synonym_map) (cleanWordRender ''constructor'') = None"
  by code_simp

text \<open>Hovering that word reaches \<^verbatim>\<open>join\<close> on a value that is no array.\<close>

lemma hover_inherited_name_throws:
  "handleWordHover True [] ''constructor'' r parentRect viewportWidth = Thrown TypeError"
proof -
  have "getProperty [] (cleanWordHover ''constructor'') = Inherited"
    by code_simp
  then show ?thesis
    by (simp add: handleWordHover_def Let_def)
qed

section \<open>Properties of the normalization\<close>













section \<open>Properties of the tooltip placement\<close>

text \<open>
  Rounding on known values: one tenth, two ties above \<open>pow2 53\<close> (one goes down, one
  goes up, each to the even significand), and a value that needs no rounding.
\<close>

lemma roundToDouble_examples:
  "roundToDouble (1 / 10) = Finite (3602879701896397 / 2 ^ 55) \<and>
   roundToDouble (2 ^ 53 + 1) = Finite (2 ^ 53) \<and>
   roundToDouble (2 ^ 53 + 3) = Finite (2 ^ 53 + 4) \<and>
   roundToDouble (- (5 / 2)) = Finite (- (5 / 2))"
  by code_simp

text \<open>
  The arithmetic is that of doubles. With the left edge of the word at
  \<open>80.00000000000001\<close>, a word 40 wide, an estimated width of 140 and a viewport 160 wide,
  the sum for the right edge rounds to 150, the test against \<open>160 - 10\<close> does not fire,
  and the anchor stays at the middle of the word.
\<close>

lemma tooltip_edge_test_rounds:
  "roundToDouble (80 + 1 / 2 ^ 46) = Finite (80 + 1 / 2 ^ 46) \<and>
   js_add (Finite (80 + 1 / 2 ^ 46)) (Finite 70) = Finite 150 \<and>
   handleWordHover True [(''happy'', [''glad''])] ''happy''
     \<lparr>rect_left = Finite (80 + 1 / 2 ^ 46), rect_top = Finite 50, rect_width = Finite 40\<rparr>
     \<lparr>rect_left = Finite 0, rect_top = Finite 40, rect_width = Finite 160\<rparr> (Finite 160)
     = Shown ''happy'' [''glad''] (Finite (100 + 1 / 2 ^ 46)) (Finite 0)"
  by code_simp

text \<open>
  A tooltip estimated wider than the viewport less the two margins cannot fit wherever it
  is anchored: in a viewport 100 wide the handler aligns the left edge with the margin and
  the footprint ends at 150.
\<close>

lemma tooltip_narrow_viewport:
  "handleWordHover True [(''happy'', [''glad''])] ''happy''
     \<lparr>rect_left = Finite 0, rect_top = Finite 50, rect_width = Finite 40\<rparr>
     \<lparr>rect_left = Finite 0, rect_top = Finite 40, rect_width = Finite 100\<rparr> (Finite 100)
     = Shown ''happy'' [''glad''] (Finite 80) (Finite 0) \<and>
   tooltipFootprint \<lparr>rect_left = Finite 0, rect_top = Finite 40, rect_width = Finite 100\<rparr>
     (Finite 80) (Finite 140) = Some (10, 150)"
  by code_simp

text \<open>
  Claim C5. The anchor computed on hover keeps the estimated footprint of the tooltip
  within \<open>[10, viewportWidth - 10]\<close>. The handler measures both edges from the left edge
  of the word and anchors the tooltip at the middle of the word. In a viewport 1000 wide,
  for a word 60 wide with its left edge at 920 and an estimated width of 140, neither test
  fires (\<open>920 - 70 = 850\<close>, \<open>920 + 70 = 990\<close>); the anchor is 150 inside an entry that
  begins at 800, and the footprint runs from 880 to 1020, past \<open>1000 - 10\<close>. The anchor
  120 would have kept it within the margins.
\<close>

theorem tooltip_unclamped_passes_right_margin:
  "handleWordHover True [(''happy'', [''glad''])] ''happy''
     \<lparr>rect_left = Finite 920, rect_top = Finite 50, rect_width = Finite 60\<rparr>
     \<lparr>rect_left = Finite 800, rect_top = Finite 40, rect_width = Finite 190\<rparr> (Finite 1000)
     = Shown ''happy'' [''glad''] (Finite 150) (Finite 0) \<and>
   tooltipEstimatedWidth [''glad''] = Finite 140 \<and>
   tooltipFootprint \<lparr>rect_left = Finite 800, rect_top = Finite 40, rect_width = Finite 190\<rparr>
     (Finite 150) (Finite 140) = Some (880, 1020) \<and>
   (1000 - 10 :: rat) < 1020 \<and>
   tooltipFootprint \<lparr>rect_left = Finite 800, rect_top = Finite 40, rect_width = Finite 190\<rparr>
     (Finite 120) (Finite 140) = Some (850, 990)"
  by code_simp

section \<open>Properties of the synonym provider\<close>

text \<open>A text that begins with an opening brace parses to an object or not at all.\<close>

lemma objectAtRoot_Cons:
  "objectAtRoot (f # stack) \<longleftrightarrow>
     (if stack = [] then (case f of ObjectFrame members k \<Rightarrow> True | ArrayFrame elems \<Rightarrow> False)
      else objectAtRoot stack)"
  by (simp add: objectAtRoot_def)

lemma deliver_rooted:
  assumes "objectAtRoot stack" and "deliver v stack = Some st'"
  shows "rootedInObject st'"
  using assms
  by (cases "(v, stack)" rule: deliver.cases) (auto simp: objectAtRoot_Cons objectAtRoot_def)

lemma startValue_rooted:
  assumes "objectAtRoot stack" and "startValue t stack = Some st'"
  shows "rootedInObject st'"
proof (cases t)
  case LBrace
  with assms show ?thesis by (auto simp: objectAtRoot_Cons objectAtRoot_def)
next
  case LBracket
  with assms show ?thesis by (auto simp: objectAtRoot_Cons objectAtRoot_def)
qed (use assms in \<open>auto dest: deliver_rooted\<close>)

lemma closeArray_rooted:
  assumes "objectAtRoot stack" and "closeArray stack = Some st'"
  shows "rootedInObject st'"
proof (cases stack rule: closeArray.cases)
  case (1 elems rest)
  with assms(1) have "objectAtRoot rest"
    by (auto simp: objectAtRoot_Cons split: if_splits)
  with assms(2) 1 show ?thesis
    by (auto dest: deliver_rooted)
qed (use assms in auto)

lemma closeObject_rooted:
  assumes "objectAtRoot stack" and "closeObject stack = Some st'"
  shows "rootedInObject st'"
proof (cases stack rule: closeObject.cases)
  case (1 members rest)
  show ?thesis
  proof (cases "rest = []")
    case True
    with assms(2) 1 show ?thesis by auto
  next
    case False
    with assms(1) 1 have "objectAtRoot rest"
      by (simp add: objectAtRoot_Cons)
    with assms(2) 1 show ?thesis
      by (auto dest: deliver_rooted)
  qed
qed (use assms in auto)

lemma startKey_rooted:
  assumes "objectAtRoot stack" and "startKey t stack = Some st'"
  shows "rootedInObject st'"
  using assms
  by (cases "(t, stack)" rule: startKey.cases) (auto simp: objectAtRoot_Cons)

lemma parseStep_rooted:
  assumes "rootedInObject st" and "parseStep st t = Some st'"
  shows "rootedInObject st'"
proof (cases "(st, t)" rule: parseStep.cases)
  case (1 stack t)
  with assms show ?thesis by (auto dest: startValue_rooted)
next
  case (2 stack t)
  with assms show ?thesis by (auto dest: startValue_rooted closeArray_rooted split: if_splits)
next
  case (3 stack t)
  with assms show ?thesis by (auto dest: startKey_rooted closeObject_rooted split: if_splits)
next
  case (4 stack t)
  with assms show ?thesis by (auto dest: startKey_rooted)
next
  case (5 stack t)
  with assms show ?thesis by (auto split: if_splits)
next
  case (6 elems stack t)
  show ?thesis
  proof (cases "t = Comma")
    case True
    with assms 6 show ?thesis by auto
  next
    case False
    with assms 6 have "closeArray (ArrayFrame elems # stack) = Some st'"
      by (auto split: if_splits)
    with assms(1) 6 show ?thesis
      by (auto intro: closeArray_rooted)
  qed
next
  case (7 members k stack t)
  show ?thesis
  proof (cases "t = Comma")
    case True
    with assms 7 show ?thesis by auto
  next
    case False
    with assms 7 have "closeObject (ObjectFrame members k # stack) = Some st'"
      by (auto split: if_splits)
    with assms(1) 7 show ?thesis
      by (auto intro: closeObject_rooted)
  qed
next
  case (8 t)
  with assms show ?thesis by simp
next
  case (9 v stack t)
  with assms show ?thesis by simp
qed

lemma parseTokens_rooted:
  assumes "rootedInObject st" and "parseTokens st ts = Some st'"
  shows "rootedInObject st'"
  using assms
proof (induction ts arbitrary: st)
  case Nil
  then show ?case by simp
next
  case (Cons t ts)
  then show ?case
    by (auto split: option.splits dest: parseStep_rooted)
qed

lemma JSON_parse_brace_object:
  assumes "JSON_parse (CHR ''{'' # cs) = Inr v"
  shows "\<exists>members. v = JObject members"
proof -
  from assms obtain tokens where
    toks: "tokenizeJSON (CHR ''{'' # cs) = Some tokens" and
    parsed: "parseTokens (Value, []) tokens = Some (Done v, [])"
    by (auto simp: JSON_parse_def split: option.splits expect.splits list.splits)
  from toks obtain rest where tokens: "tokens = LBrace # rest"
    by (auto simp: isJSONWhiteSpace_def)
  with parsed have "parseTokens (KeyOrEnd, [ObjectFrame [] None]) rest = Some (Done v, [])"
    by simp
  moreover have "rootedInObject (KeyOrEnd, [ObjectFrame [] None])"
    by (simp add: objectAtRoot_def)
  ultimately have "rootedInObject (Done v, [])"
    by (rule parseTokens_rooted [rotated])
  then show ?thesis
    by (cases v) simp_all
qed

lemma matchBraceLazy_brace:
  assumes "matchBraceLazy s = Some m"
  shows "\<exists>cs. m = CHR ''{'' # cs"
proof -
  let ?from = "dropWhile (\<lambda>c. c \<noteq> CHR ''{'') s"
  from assms obtain b body where from_eq: "?from = b # body"
    by (cases ?from) (auto simp: matchBraceLazy_def)
  then have "?from \<noteq> []"
    by simp
  from hd_dropWhile [OF this] from_eq have "b = CHR ''{''"
    by simp
  with assms from_eq show ?thesis
    by (auto simp: matchBraceLazy_def split: if_splits)
qed

lemma matchBraceFlat_brace:
  assumes "matchBraceFlat s = Some m"
  shows "\<exists>cs. m = CHR ''{'' # cs"
  using assms by (induction s) (auto split: if_splits)

lemma extractSynonyms_object: "\<exists>members. extractSynonyms response = JObject members"
proof (cases "matchBraceLazy response")
  case None
  then show ?thesis
    by (simp add: extractSynonyms_def)
next
  case (Some jsonMatch)
  then obtain cs where m: "jsonMatch = CHR ''{'' # cs"
    using matchBraceLazy_brace by blast
  show ?thesis
  proof (cases "JSON_parse jsonMatch")
    case (Inr parsed)
    with m obtain members where "parsed = JObject members"
      using JSON_parse_brace_object by blast
    with Some Inr show ?thesis
      by (simp add: extractSynonyms_def)
  next
    case (Inl e)
    show ?thesis
    proof (cases "matchBraceFlat (removeLineBreaksAndTabs response)")
      case None
      with Some Inl show ?thesis
        by (simp add: extractSynonyms_def)
    next
      case flat: (Some cleanJson)
      then obtain ds where c: "cleanJson = CHR ''{'' # ds"
        using matchBraceFlat_brace by blast
      show ?thesis
      proof (cases "JSON_parse cleanJson")
        case (Inl e')
        with Some \<open>JSON_parse jsonMatch = Inl e\<close> flat show ?thesis
          by (simp add: extractSynonyms_def)
      next
        case (Inr v)
        with c obtain members where "v = JObject members"
          using JSON_parse_brace_object by blast
        with Some \<open>JSON_parse jsonMatch = Inl e\<close> flat Inr show ?thesis
          by (simp add: extractSynonyms_def)
      qed
    qed
  qed
qed

lemma provider_returns_object:
  "\<exists>members. CustomAIService_getSynonymsForSentence reply = Inr (JObject members)"
proof (cases reply)
  case Rejected
  then show ?thesis
    by (simp add: CustomAIService_getSynonymsForSentence_def awaitAndExtract_def)
next
  case (Resolved answer)
  show ?thesis
  proof (cases answer)
    case None
    with Resolved show ?thesis
      by (simp add: CustomAIService_getSynonymsForSentence_def awaitAndExtract_def)
  next
    case (Some response)
    obtain members where "extractSynonyms response = JObject members"
      using extractSynonyms_object by blast
    with Resolved Some show ?thesis
      by (simp add: CustomAIService_getSynonymsForSentence_def awaitAndExtract_def)
  qed
qed

text \<open>
  Claim C2. The response with a preamble, the object
  \<^verbatim>\<open>{"very":["extremely","incredibly","remarkably"]}\<close> and a trailer yields the mapping with
  the single key \<^verbatim>\<open>very\<close> bound to the three synonyms; \<^verbatim>\<open>no json here\<close> and
  \<^verbatim>\<open>{}\<close> both yield the empty mapping.
\<close>

theorem parse_examples:
  \<open>CustomAIService_getSynonymsForSentence
     (Resolved (Some ''Some preamble {"very":["extremely","incredibly","remarkably"]} trailing''))
     = Inr (JObject [(''very'',
              JArray [JString ''extremely'', JString ''incredibly'', JString ''remarkably''])]) \<and>
   CustomAIService_getSynonymsForSentence (Resolved (Some ''no json here'')) = Inr (JObject []) \<and>
   CustomAIService_getSynonymsForSentence (Resolved (Some ''{}'')) = Inr (JObject [])\<close>
  by code_simp

text \<open>
  Claim C3. Whatever the service answers, and also when its call fails,
  \<^verbatim>\<open>getSynonymsForSentence\<close> returns normally, and returns an object; it returns the empty
  object when the call is rejected or resolves to no text, when no brace group is found,
  when the first parse gives a value that is not an object with at least one key, and when
  the first parse fails and the retry fails too.
\<close>

theorem provider_never_throws:
  "(\<exists>members. CustomAIService_getSynonymsForSentence reply = Inr (JObject members)) \<and>
   (reply = Rejected \<or> reply = Resolved None \<longrightarrow>
      CustomAIService_getSynonymsForSentence reply = Inr (JObject [])) \<and>
   (reply = Resolved (Some response) \<and> matchBraceLazy response = None \<longrightarrow>
      CustomAIService_getSynonymsForSentence reply = Inr (JObject [])) \<and>
   (reply = Resolved (Some response) \<and> matchBraceLazy response = Some jsonMatch \<and>
    JSON_parse jsonMatch = Inr parsed \<and> \<not> isNonEmptyObject parsed \<longrightarrow>
      CustomAIService_getSynonymsForSentence reply = Inr (JObject [])) \<and>
   (reply = Resolved (Some response) \<and> matchBraceLazy response = Some jsonMatch \<and>
    JSON_parse jsonMatch = Inl e \<and> secondParseFails response \<longrightarrow>
      CustomAIService_getSynonymsForSentence reply = Inr (JObject []))"
proof (intro conjI impI)
  show "\<exists>members. CustomAIService_getSynonymsForSentence reply = Inr (JObject members)"
    by (rule provider_returns_object)
next
  assume "reply = Rejected \<or> reply = Resolved None"
  then show "CustomAIService_getSynonymsForSentence reply = Inr (JObject [])"
    by (auto simp: CustomAIService_getSynonymsForSentence_def awaitAndExtract_def)
next
  assume "reply = Resolved (Some response) \<and> matchBraceLazy response = None"
  then show "CustomAIService_getSynonymsForSentence reply = Inr (JObject [])"
    by (simp add: CustomAIService_getSynonymsForSentence_def awaitAndExtract_def
          extractSynonyms_def)
next
  assume "reply = Resolved (Some response) \<and> matchBraceLazy response = Some jsonMatch \<and>
          JSON_parse jsonMatch = Inr parsed \<and> \<not> isNonEmptyObject parsed"
  then show "CustomAIService_getSynonymsForSentence reply = Inr (JObject [])"
    by (simp add: CustomAIService_getSynonymsForSentence_def awaitAndExtract_def
          extractSynonyms_def)
next
  assume "reply = Resolved (Some response) \<and> matchBraceLazy response = Some jsonMatch \<and>
          JSON_parse jsonMatch = Inl e \<and> secondParseFails response"
  then show "CustomAIService_getSynonymsForSentence reply = Inr (JObject [])"
    by (auto simp: CustomAIService_getSynonymsForSentence_def awaitAndExtract_def
          extractSynonyms_def secondParseFails_def split: option.splits sum.splits)
qed

theorem provider_never_throws_witness:
  \<open>CustomAIService_getSynonymsForSentence Rejected = Inr (JObject []) \<and>
   CustomAIService_getSynonymsForSentence (Resolved None) = Inr (JObject []) \<and>
   matchBraceLazy ''no json here'' = None \<and>
   CustomAIService_getSynonymsForSentence (Resolved (Some ''no json here'')) = Inr (JObject []) \<and>
   matchBraceLazy ''ok: {} '' = Some ''{}'' \<and> JSON_parse ''{}'' = Inr (JObject []) \<and>
   \<not> isNonEmptyObject (JObject []) \<and>
   CustomAIService_getSynonymsForSentence (Resolved (Some ''ok: {} '')) = Inr (JObject []) \<and>
   matchBraceLazy ''{very: good}'' = Some ''{very: good}'' \<and>
   JSON_parse ''{very: good}'' = Inl SyntaxError \<and> secondParseFails ''{very: good}'' \<and>
   CustomAIService_getSynonymsForSentence (Resolved (Some ''{very: good}'')) = Inr (JObject [])\<close>
proof -
  have a: "matchBraceLazy ''no json here'' = None"
    by code_simp
  have b: "matchBraceLazy ''ok: {} '' = Some ''{}''"
    by code_simp
  have c: "JSON_parse ''{}'' = Inr (JObject [])"
    by code_simp
  have d: "matchBraceLazy ''{very: good}'' = Some ''{very: good}''"
    by code_simp
  have e: "JSON_parse ''{very: good}'' = Inl SyntaxError"
    by code_simp
  have f: "secondParseFails ''{very: good}''"
    by code_simp
  show ?thesis
    using provider_never_throws [of Rejected]
      provider_never_throws [of "Resolved None"]
      provider_never_throws [of "Resolved (Some ''no json here'')" "''no json here''"]
      provider_never_throws [of "Resolved (Some ''ok: {} '')" "''ok: {} ''" "''{}''" "JObject []"]
      provider_never_throws [of "Resolved (Some ''{very: good}'')" "''{very: good}''"
        "''{very: good}''" _ SyntaxError]
      a b c d e f
    by simp
qed

section \<open>Properties of the lookup\<close>

lemma list_all_update:
  assumes "list_all P xs" and "P (k, v)"
  shows "list_all P (AList.update k v xs)"
  using assms by (induction xs) auto

lemma provider_result_mapping:
  assumes "CustomAIService_getSynonymsForSentence reply = Inr v" and "isNonEmptyObject v"
  shows "isNonEmptyMapping v"
proof -
  obtain members where "CustomAIService_getSynonymsForSentence reply = Inr (JObject members)"
    using provider_returns_object by blast
  with assms show ?thesis
    by auto
qed

lemma lookupFinish_cached_mappings:
  assumes "list_all (\<lambda>(k, v). isNonEmptyMapping v) (SYNONYMS_CACHE s)"
  shows "list_all (\<lambda>(k, v). isNonEmptyMapping v) (SYNONYMS_CACHE (snd (lookupFinish s sentence reply)))"
proof (cases "CustomAIService_getSynonymsForSentence reply")
  case (Inl e)
  with assms show ?thesis
    by (simp add: lookupFinish_def)
next
  case (Inr v)
  show ?thesis
  proof (cases "isNonEmptyObject v")
    case True
    with Inr have "isNonEmptyMapping v"
      by (rule provider_result_mapping)
    with assms Inr True show ?thesis
      by (simp add: lookupFinish_def list_all_update)
  next
    case False
    with assms Inr show ?thesis
      by (simp add: lookupFinish_def)
  qed
qed

lemma getSynonymsForSentence_cached_mappings:
  assumes "list_all (\<lambda>(k, v). isNonEmptyMapping v) (SYNONYMS_CACHE s)"
  shows "list_all (\<lambda>(k, v). isNonEmptyMapping v)
           (SYNONYMS_CACHE (snd (getSynonymsForSentence s sentence reply)))"
proof (cases "map_of (SYNONYMS_CACHE s) (cacheKey sentence)")
  case (Some v)
  with assms show ?thesis
    by (simp add: getSynonymsForSentence_def lookupStart_def)
next
  case None
  let ?s' = "s\<lparr>externalCalls := externalCalls s @ [sentence]\<rparr>"
  have "list_all (\<lambda>(k, v). isNonEmptyMapping v) (SYNONYMS_CACHE ?s')"
    using assms by simp
  then have "list_all (\<lambda>(k, v). isNonEmptyMapping v)
               (SYNONYMS_CACHE (snd (lookupFinish ?s' sentence reply)))"
    by (rule lookupFinish_cached_mappings)
  with None show ?thesis
    by (simp add: getSynonymsForSentence_def lookupStart_def)
qed

lemma empty_lookup_step:
  assumes "map_of (SYNONYMS_CACHE s) (cacheKey sentence) = None"
    and "CustomAIService_getSynonymsForSentence reply = Inr (JObject [])"
  shows "getSynonymsForSentence s sentence reply =
           (JObject [], s\<lparr>externalCalls := externalCalls s @ [sentence]\<rparr>)"
  using assms by (simp add: getSynonymsForSentence_def lookupStart_def lookupFinish_def)

lemma repeated_empty_lookups:
  assumes "map_of (SYNONYMS_CACHE s) (cacheKey sentence) = None"
    and "list_all (\<lambda>reply. CustomAIService_getSynonymsForSentence reply = Inr (JObject [])) replies"
  shows "repeatedLookups s sentence replies =
           s\<lparr>externalCalls := externalCalls s @ replicate (length replies) sentence\<rparr>"
  using assms
proof (induction replies arbitrary: s)
  case Nil
  then show ?case by simp
next
  case (Cons reply replies)
  let ?s' = "s\<lparr>externalCalls := externalCalls s @ [sentence]\<rparr>"
  from Cons.prems have step: "getSynonymsForSentence s sentence reply = (JObject [], ?s')"
    by (simp add: empty_lookup_step)
  have "repeatedLookups ?s' sentence replies =
          ?s'\<lparr>externalCalls := externalCalls ?s' @ replicate (length replies) sentence\<rparr>"
    using Cons.prems by (intro Cons.IH) simp_all
  with step show ?case
    by (simp add: replicate_app_Cons_same)
qed

text \<open>
  Claim C10. The lookup stores only non-empty mappings: the cache keeps holding nothing
  but objects with at least one key after any call, and a call whose provider result is
  the empty object stores nothing. So from a state where the sentence misses the cache,
  however many lookups of it come back empty, each one sends a fresh request and the
  cache stays as it was, and the next lookup misses again.
\<close>

theorem empty_results_never_cached:
  "(list_all (\<lambda>(k, v). isNonEmptyMapping v) (SYNONYMS_CACHE s) \<longrightarrow>
      list_all (\<lambda>(k, v). isNonEmptyMapping v)
        (SYNONYMS_CACHE (snd (getSynonymsForSentence s sentence reply)))) \<and>
   (map_of (SYNONYMS_CACHE s) (cacheKey sentence) = None \<and>
    list_all (\<lambda>reply. CustomAIService_getSynonymsForSentence reply = Inr (JObject [])) replies \<longrightarrow>
      SYNONYMS_CACHE (repeatedLookups s sentence replies) = SYNONYMS_CACHE s \<and>
      externalCalls (repeatedLookups s sentence replies) =
        externalCalls s @ replicate (length replies) sentence \<and>
      fst (lookupStart (repeatedLookups s sentence replies) sentence) = AwaitingService)"
proof (intro conjI impI)
  assume "list_all (\<lambda>(k, v). isNonEmptyMapping v) (SYNONYMS_CACHE s)"
  then show "list_all (\<lambda>(k, v). isNonEmptyMapping v)
        (SYNONYMS_CACHE (snd (getSynonymsForSentence s sentence reply)))"
    by (rule getSynonymsForSentence_cached_mappings)
next
  assume a: "map_of (SYNONYMS_CACHE s) (cacheKey sentence) = None \<and>
    list_all (\<lambda>reply. CustomAIService_getSynonymsForSentence reply = Inr (JObject [])) replies"
  then have r: "repeatedLookups s sentence replies =
           s\<lparr>externalCalls := externalCalls s @ replicate (length replies) sentence\<rparr>"
    by (simp add: repeated_empty_lookups)
  show "SYNONYMS_CACHE (repeatedLookups s sentence replies) = SYNONYMS_CACHE s"
    by (simp add: r)
  show "externalCalls (repeatedLookups s sentence replies) =
        externalCalls s @ replicate (length replies) sentence"
    by (simp add: r)
  show "fst (lookupStart (repeatedLookups s sentence replies) sentence) = AwaitingService"
    using a by (simp add: r lookupStart_def)
qed

theorem empty_results_never_cached_witness:
  \<open>list_all (\<lambda>(k, v). isNonEmptyMapping v) (SYNONYMS_CACHE initialPage) \<and>
   list_all (\<lambda>(k, v). isNonEmptyMapping v)
     (SYNONYMS_CACHE (snd (getSynonymsForSentence initialPage ''I am sad.''
        (Resolved (Some ''{"sad":["unhappy","gloomy","downhearted"]}''))))) \<and>
   map_of (SYNONYMS_CACHE initialPage) (cacheKey ''I am.'') = None \<and>
   list_all (\<lambda>reply. CustomAIService_getSynonymsForSentence reply = Inr (JObject []))
     [Rejected, Resolved (Some ''{}''), Resolved None] \<and>
   SYNONYMS_CACHE (repeatedLookups initialPage ''I am.''
     [Rejected, Resolved (Some ''{}''), Resolved None]) = [] \<and>
   externalCalls (repeatedLookups initialPage ''I am.''
     [Rejected, Resolved (Some ''{}''), Resolved None]) = [''I am.'', ''I am.'', ''I am.''] \<and>
   fst (lookupStart (repeatedLookups initialPage ''I am.''
     [Rejected, Resolved (Some ''{}''), Resolved None]) ''I am.'') = AwaitingService\<close>
proof -
  have inv: "list_all (\<lambda>(k, v). isNonEmptyMapping v) (SYNONYMS_CACHE initialPage)"
    by (simp add: initialPage_def)
  have miss: "map_of (SYNONYMS_CACHE initialPage) (cacheKey ''I am.'') = None"
    by (simp add: initialPage_def)
  have empties: "list_all (\<lambda>reply. CustomAIService_getSynonymsForSentence reply = Inr (JObject []))
     [Rejected, Resolved (Some ''{}''), Resolved None]"
    by code_simp
  have cache0: "SYNONYMS_CACHE initialPage = []" and calls0: "externalCalls initialPage = []"
    by (simp_all add: initialPage_def)
  show ?thesis
    using empty_results_never_cached [of initialPage "''I am sad.''"
        \<open>Resolved (Some ''{"sad":["unhappy","gloomy","downhearted"]}'')\<close>]
      empty_results_never_cached [of initialPage "''I am.''" _
        "[Rejected, Resolved (Some ''{}''), Resolved None]"]
      inv miss empties cache0 calls0
    by (simp add: numeral_3_eq_3)
qed

section \<open>Properties of the in-flight guard\<close>

text \<open>
  Claim C6, as stated: two lookups of the same text, the second begun while the request of
  the first is in flight, send one request together. Two instances of the component that
  show the same text each send their own.
\<close>

theorem two_components_two_calls:
  "externalCalls (effect (effect initialPage 1 ''I am happy'' True) 2 ''I am happy'' True)
     = [''I am happy'', ''I am happy''] \<and>
   isLoading (effect initialPage 1 ''I am happy'' True) 1"
proof -
  have t: "trim ''I am happy'' \<noteq> []"
    by code_simp
  show ?thesis
    by (simp add: effect_def loadSentenceSynonyms_start_def lookupStart_def initialPage_def t)
qed

text \<open>
  Claim C6, amended. Within one instance of the component: when its effect has sent a
  request, a second run of the effect of the same instance before the request completes,
  for any text, changes nothing and sends no request, so exactly one request is in the log
  for the two runs.
\<close>

theorem in_flight_guard_per_component:
  assumes "externalCalls (effect s c txt enableSynonyms) = externalCalls s @ [txt]"
  shows "effect (effect s c txt enableSynonyms) c txt' enableSynonyms' =
           effect s c txt enableSynonyms \<and>
         externalCalls (effect (effect s c txt enableSynonyms) c txt' enableSynonyms') =
           externalCalls s @ [txt]"
proof -
  have "isLoading (effect s c txt enableSynonyms) c"
    using assms
    by (auto simp: effect_def loadSentenceSynonyms_start_def lookupStart_def
          split: if_splits option.splits)
  then have "effect (effect s c txt enableSynonyms) c txt' enableSynonyms' =
           effect s c txt enableSynonyms"
    by (simp add: effect_def [of "effect s c txt enableSynonyms"])
  with assms show ?thesis
    by simp
qed

theorem in_flight_guard_per_component_witness:
  "externalCalls (effect initialPage 0 ''I am happy'' True) =
     externalCalls initialPage @ [''I am happy''] \<and>
   effect (effect initialPage 0 ''I am happy'' True) 0 ''I am happy'' True =
     effect initialPage 0 ''I am happy'' True \<and>
   externalCalls (effect (effect initialPage 0 ''I am happy'' True) 0 ''I am happy'' True) =
     externalCalls initialPage @ [''I am happy'']"
proof -
  have t: "trim ''I am happy'' \<noteq> []"
    by code_simp
  have first: "externalCalls (effect initialPage 0 ''I am happy'' True) =
     externalCalls initialPage @ [''I am happy'']"
    by (simp add: effect_def loadSentenceSynonyms_start_def lookupStart_def initialPage_def t)
  from in_flight_guard_per_component [OF first, of "''I am happy''" True] first
  show ?thesis
    by simp
qed

section \<open>Properties of loading a session\<close>

lemma fold_update_fresh:
  assumes "distinct (map fst (acc @ kvs))"
  shows "fold (\<lambda>(key, v) cache. AList.update key v cache) kvs acc = acc @ kvs"
  using assms
proof (induction kvs arbitrary: acc)
  case Nil
  then show ?case by simp
next
  case (Cons kv kvs)
  obtain k v where kv: "kv = (k, v)"
    by (cases kv)
  from Cons.prems kv have fresh: "k \<notin> fst ` set acc"
    by auto
  then have upd: "AList.update k v acc = acc @ [(k, v)]"
    by (induction acc) auto
  from Cons.prems kv have "distinct (map fst ((acc @ [(k, v)]) @ kvs))"
    by simp
  from Cons.IH [OF this] kv upd show ?case
    by simp
qed

lemma restoreVocabulary_distinct:
  assumes "distinct (map fst vocabularyData)"
  shows "restoreVocabulary vocabularyData = vocabularyData"
  using fold_update_fresh [of "[]" vocabularyData] assms
  by (simp add: restoreVocabulary_def)

text \<open>
  When the stored session has its \<^verbatim>\<open>vocabularyData\<close>, an object and so a list of
  pairs with distinct keys, loading the session makes the cache hold exactly these pairs,
  whatever the cache held before.
\<close>

lemma loadSession_restores_cache:
  assumes "session_vocabularyData sessionData = Some vocabularyData"
    and "distinct (map fst vocabularyData)"
  shows "SYNONYMS_CACHE (loadSession parseDate now s sessionId (Notebook sessionData)) = vocabularyData \<and>
         ((key, v) \<in> set vocabularyData \<longrightarrow>
            map_of (SYNONYMS_CACHE (loadSession parseDate now s sessionId (Notebook sessionData))) key
              = Some v) \<and>
         (key' \<notin> fst ` set vocabularyData \<longrightarrow>
            map_of (SYNONYMS_CACHE (loadSession parseDate now s sessionId (Notebook sessionData))) key'
              = None)"
proof -
  have cache: "SYNONYMS_CACHE (loadSession parseDate now s sessionId (Notebook sessionData)) = vocabularyData"
    using assms by (simp add: loadSession_def restoreVocabulary_distinct)
  show ?thesis
    unfolding cache using assms(2) by (auto simp: map_of_eq_None_iff)
qed

lemma loadSession_restores_cache_example:
  "session_vocabularyData sampleSession =
     Some [(''sad'', JArray [JString ''unhappy'', JString ''gloomy'', JString ''downhearted''])] \<and>
   distinct (map fst [(''sad'', JArray [JString ''unhappy'', JString ''gloomy'', JString ''downhearted''])]) \<and>
   map_of (SYNONYMS_CACHE sampleState) ''i am happy'' = Some (JObject [(''happy'', JArray [JString ''glad''])]) \<and>
   SYNONYMS_CACHE (loadSession sampleParseDate 42 sampleState ''abc'' (Notebook sampleSession))
     = [(''sad'', JArray [JString ''unhappy'', JString ''gloomy'', JString ''downhearted''])] \<and>
   map_of (SYNONYMS_CACHE (loadSession sampleParseDate 42 sampleState ''abc'' (Notebook sampleSession))) ''sad''
     = Some (JArray [JString ''unhappy'', JString ''gloomy'', JString ''downhearted'']) \<and>
   map_of (SYNONYMS_CACHE (loadSession sampleParseDate 42 sampleState ''abc'' (Notebook sampleSession)))
     ''i am happy'' = None"
proof -
  let ?v = "[(''sad'', JArray [JString ''unhappy'', JString ''gloomy'', JString ''downhearted''])]"
  have v: "session_vocabularyData sampleSession = Some ?v"
    by (simp add: sampleSession_def)
  have d: "distinct (map fst ?v)"
    by simp
  have old: "map_of (SYNONYMS_CACHE sampleState) ''i am happy''
               = Some (JObject [(''happy'', JArray [JString ''glad''])])"
    by (simp add: sampleState_def)
  show ?thesis
    using loadSession_restores_cache [where parseDate = sampleParseDate and now = 42
        and s = sampleState and sessionId = "''abc''" and key = "''sad''"
        and v = "JArray [JString ''unhappy'', JString ''gloomy'', JString ''downhearted'']"
        and key' = "''i am happy''", OF v d]
      v d old
    by simp
qed

text \<open>
  The clearing of the cache stands inside the test for the field. A stored session without
  \<^verbatim>\<open>vocabularyData\<close> leaves the cache as it is; so does a load that fails.
\<close>

lemma loadSession_without_vocabulary:
  assumes "session_vocabularyData sessionData = None"
  shows "SYNONYMS_CACHE (loadSession parseDate now s sessionId (Notebook sessionData)) = SYNONYMS_CACHE s"
  using assms by (simp add: loadSession_def)

lemma loadSession_failed:
  "SYNONYMS_CACHE (loadSession parseDate now s sessionId FetchFailed) = SYNONYMS_CACHE s \<and>
   leftEntries (loadSession parseDate now s sessionId FetchFailed) = leftEntries s \<and>
   rightEntries (loadSession parseDate now s sessionId FetchFailed) = rightEntries s \<and>
   alerts (loadSession parseDate now s sessionId FetchFailed) =
     alerts s @ [''Failed to load session. Please try again.'']"
  by (simp add: loadSession_def)

text \<open>
  Claim C7. Loading a saved session replaces the contents of the cache with exactly the
  stored \<^verbatim>\<open>vocabularyData\<close>: the cache is cleared first, so that no key outside the
  stored mapping remains. A session as \<^verbatim>\<open>createNewSession\<close> stores it has no
  \<^verbatim>\<open>vocabularyData\<close>. Loading it over a cache that holds the key \<^verbatim>\<open>i am happy\<close>
  succeeds, makes it the current session with no entries, and leaves that key in the
  cache.
\<close>

theorem loadSession_keeps_stale_cache:
  "session_vocabularyData freshSession = None \<and>
   alerts (loadSession sampleParseDate 42 sampleState ''new'' (Notebook freshSession)) = [] \<and>
   currentSessionId (loadSession sampleParseDate 42 sampleState ''new'' (Notebook freshSession))
     = Some ''new'' \<and>
   leftEntries (loadSession sampleParseDate 42 sampleState ''new'' (Notebook freshSession)) = [] \<and>
   SYNONYMS_CACHE (loadSession sampleParseDate 42 sampleState ''new'' (Notebook freshSession))
     = [(''i am happy'', JObject [(''happy'', JArray [JString ''glad''])])] \<and>
   map_of (SYNONYMS_CACHE (loadSession sampleParseDate 42 sampleState ''new'' (Notebook freshSession)))
     ''i am happy'' = Some (JObject [(''happy'', JArray [JString ''glad''])])"
  by (simp add: loadSession_def freshSession_def sampleState_def orEmpty_def)

lemma restoreTimestamp_fallback:
  assumes "stored = None \<or> (\<exists>t. stored = Some t \<and> parseDate t = InvalidDate)"
  shows "restoreTimestamp parseDate now stored = now"
  using assms by (auto simp: restoreTimestamp_def)

lemma restoreEntry_fallback:
  assumes "stored_timestamp e = None \<or> (\<exists>t. stored_timestamp e = Some t \<and> parseDate t = InvalidDate)"
  shows "restoreEntry parseDate now e =
           \<lparr>entry_id = stored_id e, entry_text = stored_text e,
            entry_timestamp = ValidDate now, entry_colorIndex = stored_colorIndex e\<rparr>"
  using restoreTimestamp_fallback [OF assms] by (simp add: restoreEntry_def)

text \<open>
  Claim C8. Loading a session that the store returns succeeds: no alert is raised, the
  session becomes the current one, and every stored entry is shown, left and right. An
  entry whose stored timestamp is missing or does not parse to a valid date is kept with
  the time of the load as its timestamp, and its timestamp line shows that time.
\<close>

theorem loadSession_timestamp_fallback:
  assumes loaded: "s' = loadSession parseDate now s sessionId (Notebook sessionData)"
  shows "alerts s' = alerts s \<and> currentSessionId s' = Some sessionId \<and>
         length (leftEntries s') = length (orEmpty (session_leftEntries sessionData)) \<and>
         length (rightEntries s') = length (orEmpty (session_rightEntries sessionData)) \<and>
         (i < length (orEmpty (session_leftEntries sessionData)) \<and>
          (stored_timestamp (orEmpty (session_leftEntries sessionData) ! i) = None \<or>
           (\<exists>t. stored_timestamp (orEmpty (session_leftEntries sessionData) ! i) = Some t \<and>
                parseDate t = InvalidDate)) \<longrightarrow>
            entry_text (leftEntries s' ! i) = stored_text (orEmpty (session_leftEntries sessionData) ! i) \<and>
            entry_timestamp (leftEntries s' ! i) = ValidDate now \<and>
            displayTimestamp format nowAtRender (entry_timestamp (leftEntries s' ! i)) = format now) \<and>
         (j < length (orEmpty (session_rightEntries sessionData)) \<and>
          (stored_timestamp (orEmpty (session_rightEntries sessionData) ! j) = None \<or>
           (\<exists>t. stored_timestamp (orEmpty (session_rightEntries sessionData) ! j) = Some t \<and>
                parseDate t = InvalidDate)) \<longrightarrow>
            entry_text (rightEntries s' ! j) = stored_text (orEmpty (session_rightEntries sessionData) ! j) \<and>
            entry_timestamp (rightEntries s' ! j) = ValidDate now \<and>
            displayTimestamp format nowAtRender (entry_timestamp (rightEntries s' ! j)) = format now)"
proof -
  have left: "leftEntries s' = map (restoreEntry parseDate now) (orEmpty (session_leftEntries sessionData))"
    and right: "rightEntries s' = map (restoreEntry parseDate now) (orEmpty (session_rightEntries sessionData))"
    and rest: "alerts s' = alerts s" "currentSessionId s' = Some sessionId"
    unfolding loaded by (simp_all add: loadSession_def)
  show ?thesis
    unfolding left right
    using rest
    by (auto simp: restoreEntry_fallback displayTimestamp_def)
qed

theorem loadSession_timestamp_fallback_witness:
  "alerts (loadSession sampleParseDate 42 sampleState ''abc'' (Notebook sampleSession)) = [] \<and>
   currentSessionId (loadSession sampleParseDate 42 sampleState ''abc'' (Notebook sampleSession))
     = Some ''abc'' \<and>
   length (leftEntries (loadSession sampleParseDate 42 sampleState ''abc'' (Notebook sampleSession))) = 2 \<and>
   length (rightEntries (loadSession sampleParseDate 42 sampleState ''abc'' (Notebook sampleSession))) = 1 \<and>
   stored_timestamp (orEmpty (session_leftEntries sampleSession) ! 0) = Some ''not a date'' \<and>
   sampleParseDate ''not a date'' = InvalidDate \<and>
   entry_text (leftEntries (loadSession sampleParseDate 42 sampleState ''abc'' (Notebook sampleSession)) ! 0)
     = ''I am sad'' \<and>
   entry_timestamp (leftEntries (loadSession sampleParseDate 42 sampleState ''abc'' (Notebook sampleSession)) ! 0)
     = ValidDate 42 \<and>
   displayTimestamp (\<lambda>t. if t = 42 then ''00:00'' else ''12:00'') 99
     (entry_timestamp (leftEntries (loadSession sampleParseDate 42 sampleState ''abc'' (Notebook sampleSession)) ! 0))
     = ''00:00'' \<and>
   stored_timestamp (orEmpty (session_rightEntries sampleSession) ! 0) = None \<and>
   entry_timestamp (rightEntries (loadSession sampleParseDate 42 sampleState ''abc'' (Notebook sampleSession)) ! 0)
     = ValidDate 42"
proof -
  have l: "orEmpty (session_leftEntries sampleSession) =
        [\<lparr>stored_id = 1, stored_text = ''I am sad'', stored_timestamp = Some ''not a date'',
          stored_colorIndex = 0\<rparr>,
         \<lparr>stored_id = 3, stored_text = ''It rained'', stored_timestamp = Some ''2025-01-01T00:00:00.000Z'',
          stored_colorIndex = 1\<rparr>]"
    and r: "orEmpty (session_rightEntries sampleSession) =
        [\<lparr>stored_id = 2, stored_text = ''Tell me more'', stored_timestamp = None,
          stored_colorIndex = 0\<rparr>]"
    by (simp_all add: sampleSession_def orEmpty_def)
  have p: "sampleParseDate ''not a date'' = InvalidDate"
    by (simp add: sampleParseDate_def)
  have a: "alerts sampleState = []"
    by (simp add: sampleState_def)
  show ?thesis
    using loadSession_timestamp_fallback [where parseDate = sampleParseDate and now = 42
        and s = sampleState and sessionId = "''abc''" and sessionData = sampleSession
        and i = 0 and j = 0 and format = "\<lambda>t. if t = 42 then ''00:00'' else ''12:00''"
        and nowAtRender = 99, OF refl]
      l r p a
    by (simp add: displayTimestamp_def)
qed

end
